theory Spec2Isabelle
  imports Main "HOL-Library.AList"
begin

section \<open>Data model\<close>

text \<open>
  The permission layer of the optometry backend: \<open>Models/User.js\<close>,
  \<open>Models/Permission.js\<close>, \<open>Models/Shop.js\<close> (method \<open>initializePermissions\<close>),
  \<open>controllers/permissionController.js\<close> and the permission middleware.

  A plain JavaScript object is the association list of its own properties, in insertion
  order.  Both schemas declare \<open>permissions\<close> as a \<open>Map\<close> whose values follow a nested
  schema of seven \<open>Boolean\<close> paths, so a value held in such a map is a Mongoose
  subdocument, not a plain object: its data sits in \<open>_doc\<close>, and the flags are read
  through the getters of the schema paths.  Object identifiers are natural numbers.
  What the store generates by itself (the \<open>_id\<close> of a subdocument, timestamps) is not
  part of the model, and the store never fails: a \<open>catch\<close> branch is modelled only where
  the handler's own code can throw.
\<close>

datatype js = JUndefined | JBool bool | JInternal | JObject "(string \<times> js) list"

type_synonym obj = "(string \<times> js) list"

text \<open>A capability object as it is written in a literal or arrives in a request body.\<close>

type_synonym caps = "(string \<times> bool) list"
type_synonym perm_table = "(string \<times> caps) list"

text \<open>The paths of the nested schema (\<open>User.js\<close> 69-77, \<open>Permission.js\<close> 17-25).\<close>

definition capability_paths :: "string list" where
  "capability_paths =
    [''view'', ''create'', ''edit'', ''delete'', ''export'', ''import'', ''manage'']"

datatype subdocument = Subdocument (doc: obj)

text \<open>The own enumerable properties of a subdocument read from the store: what
  \<open>{...value}\<close> copies and \<open>Object.keys(value)\<close> lists.  None of them is a flag.\<close>

definition own_properties :: "subdocument \<Rightarrow> obj" where
  "own_properties s = [(''$__'', JInternal), (''_doc'', JObject (doc s)), (''$isNew'', JBool False)]"

text \<open>
  \<open>value[name]\<close> on a subdocument: an own property, else the getter of a schema path,
  which reads \<open>_doc\<close> and gives \<open>undefined\<close> for a path that is not set, else a member
  inherited from Mongoose's document prototypes.  These prototypes belong to the library,
  not to this repository; \<open>inherited\<close> stands for them.
\<close>

definition subdocument_get :: "(string \<Rightarrow> js) \<Rightarrow> subdocument \<Rightarrow> string \<Rightarrow> js" where
  "subdocument_get inherited s name =
    (case map_of (own_properties s) name of
       Some v \<Rightarrow> v
     | None \<Rightarrow>
        if name \<in> set capability_paths
        then (case map_of (doc s) name of None \<Rightarrow> JUndefined | Some v \<Rightarrow> v)
        else inherited name)"

text \<open>\<open>permissionSchema\<close> gives every path \<open>default: false\<close>: a capability object written
  to a record is stored with all seven flags, the unlisted ones \<open>false\<close>; keys outside
  the schema are dropped.\<close>

definition cast_capabilities :: "caps \<Rightarrow> subdocument" where
  "cast_capabilities c =
    Subdocument
      (map (\<lambda>path. (path, JBool (case map_of c path of None \<Rightarrow> False | Some b \<Rightarrow> b)))
         capability_paths)"

definition store_map :: "perm_table \<Rightarrow> (string \<times> subdocument) list" where
  "store_map pm = map (\<lambda>(key, c). (key, cast_capabilities c)) pm"

text \<open>\<open>o[k] = v\<close> on a plain object: overwrite in place or append; \<open>__proto__\<close> is the
  one key whose assignment creates no own property.\<close>

definition assign :: "string \<Rightarrow> 'a \<Rightarrow> (string \<times> 'a) list \<Rightarrow> (string \<times> 'a) list" where
  "assign k v ob = (if k = ''__proto__'' then ob else AList.update k v ob)"

text \<open>\<open>userSchema\<close>: the fields the permission layer reads.  \<open>shop\<close> is optional (the
  platform admin has none); \<open>permissions\<close> and \<open>accessiblePages\<close> are \<open>None\<close> once they
  have been removed by \<open>$unset\<close>.  The nested schema of \<open>userSchema\<close> has no defaults, so
  an override holds only the flags that were set.\<close>

record user =
  uid :: nat
  role :: string
  shop :: "nat option"
  permissions :: "(string \<times> subdocument) list option"
  accessiblePages :: "string list option"

text \<open>\<open>permissionSchema\<close>: \<open>shop\<close>, \<open>role\<close> and \<open>createdBy\<close> are required.\<close>

record permission =
  p_shop :: nat
  p_role :: string
  p_permissions :: "(string \<times> subdocument) list"
  pageAccess :: "string list"
  isActive :: bool
  createdBy :: nat

text \<open>A capability object literal whose listed flags are all \<open>true\<close>.\<close>

definition grant :: "string list \<Rightarrow> caps" where
  "grant actions = map (\<lambda>a. (a, True)) actions"

section \<open>Permission.js: static tables\<close>

definition admin_defaults :: perm_table where
  "admin_defaults =
    [(''dashboard'', grant [''view'', ''manage'']),
     (''customers'', grant [''view'', ''create'', ''edit'', ''delete'', ''export'', ''import'']),
     (''records'', grant [''view'', ''create'', ''edit'', ''delete'', ''export'', ''import'']),
     (''appointments'', grant [''view'', ''create'', ''edit'', ''delete'', ''export'']),
     (''billing'', grant [''view'', ''create'', ''edit'', ''delete'', ''export'']),
     (''inventory'', grant [''view'', ''create'', ''edit'', ''delete'', ''export'', ''import'']),
     (''reports'', grant [''view'', ''create'', ''export'', ''manage'']),
     (''settings'', grant [''view'', ''edit'', ''manage'']),
     (''users'', grant [''view'', ''create'', ''edit'', ''delete'', ''manage'']),
     (''permissions'', grant [''view'', ''create'', ''edit'', ''delete'', ''manage''])]"

definition shop_owner_defaults :: perm_table where
  "shop_owner_defaults =
    [(''dashboard'', grant [''view'', ''manage'']),
     (''customers'', grant [''view'', ''create'', ''edit'', ''delete'', ''export'', ''import'']),
     (''records'', grant [''view'', ''create'', ''edit'', ''delete'', ''export'', ''import'']),
     (''appointments'', grant [''view'', ''create'', ''edit'', ''delete'', ''export'']),
     (''billing'', grant [''view'', ''create'', ''edit'', ''delete'', ''export'']),
     (''inventory'', grant [''view'', ''create'', ''edit'', ''delete'', ''export'', ''import'']),
     (''reports'', grant [''view'', ''create'', ''export'', ''manage'']),
     (''settings'', grant [''view'', ''edit'', ''manage'']),
     (''users'', grant [''view'', ''create'', ''edit'', ''delete'', ''manage'']),
     (''permissions'', grant [''view'', ''create'', ''edit'', ''delete'', ''manage''])]"

definition optometrist_defaults :: perm_table where
  "optometrist_defaults =
    [(''dashboard'', grant [''view'']),
     (''customers'', grant [''view'', ''create'', ''edit'', ''export'']),
     (''records'', grant [''view'', ''create'', ''edit'', ''export'']),
     (''appointments'', grant [''view'', ''create'', ''edit'']),
     (''reports'', grant [''view'', ''export''])]"

definition assistant_defaults :: perm_table where
  "assistant_defaults =
    [(''dashboard'', grant [''view'']),
     (''customers'', grant [''view'', ''create'', ''edit'']),
     (''records'', grant [''view'', ''create'']),
     (''appointments'', grant [''view'', ''create'', ''edit''])]"

definition receptionist_defaults :: perm_table where
  "receptionist_defaults =
    [(''dashboard'', grant [''view'']),
     (''customers'', grant [''view'', ''create'', ''edit'']),
     (''appointments'', grant [''view'', ''create'', ''edit'', ''delete''])]"

text \<open>The object literal \<open>defaults\<close> of \<open>getDefaultPermissions\<close>: its own properties.\<close>

definition defaults :: "(string \<times> perm_table) list" where
  "defaults =
    [(''admin'', admin_defaults),
     (''shop_owner'', shop_owner_defaults),
     (''optometrist'', optometrist_defaults),
     (''assistant'', assistant_defaults),
     (''receptionist'', receptionist_defaults)]"

text \<open>
  \<open>defaults\<close> is an ordinary object, so \<open>defaults[role]\<close> also finds the members it
  inherits from \<open>Object.prototype\<close>.  Each of them is a function, or for \<open>__proto__\<close> the
  prototype object itself: a truthy value without enumerable own properties.
\<close>

definition object_prototype_keys :: "string list" where
  "object_prototype_keys =
    [''constructor'', ''__defineGetter__'', ''__defineSetter__'', ''hasOwnProperty'',
     ''__lookupGetter__'', ''__lookupSetter__'', ''isPrototypeOf'', ''propertyIsEnumerable'',
     ''toString'', ''valueOf'', ''__proto__'', ''toLocaleString'']"

datatype lookup = Table perm_table | Inherited string

text \<open>\<open>return defaults[role] || defaults.assistant\<close>: every value that the lookup can
  find is truthy, so the fallback is taken exactly when the lookup is \<open>undefined\<close>.\<close>

definition getDefaultPermissions :: "string \<Rightarrow> lookup" where
  "getDefaultPermissions r =
    (case map_of defaults r of
       Some t \<Rightarrow> Table t
     | None \<Rightarrow> if r \<in> set object_prototype_keys then Inherited r
               else Table assistant_defaults)"

text \<open>\<open>Object.keys\<close> and the entries \<open>(k, o[k])\<close> of what \<open>getDefaultPermissions\<close> returns.\<close>

fun object_entries :: "lookup \<Rightarrow> perm_table" where
  "object_entries (Table t) = t"
| "object_entries (Inherited n) = []"

definition object_keys :: "lookup \<Rightarrow> string list" where
  "object_keys v = map fst (object_entries v)"

definition getAvailablePages :: "string list" where
  "getAvailablePages =
    [''dashboard'', ''customers'', ''records'', ''appointments'', ''billing'', ''inventory'',
     ''reports'', ''settings'', ''users'', ''permissions'', ''analytics'', ''notifications'',
     ''help'']"

definition getAvailableActions :: "string list" where
  "getAvailableActions =
    [''view'', ''create'', ''edit'', ''delete'', ''export'', ''import'', ''manage'']"

section \<open>User.js: permission checks and the resolver\<close>

text \<open>\<open>Permission.findOne({shop, role, isActive: true})\<close>.  A record always carries a
  shop, so an account without one matches nothing.\<close>

definition findOne :: "permission list \<Rightarrow> nat option \<Rightarrow> string \<Rightarrow> permission option" where
  "findOne ps sh r = find (\<lambda>p. Some (p_shop p) = sh \<and> p_role p = r \<and> isActive p) ps"

text \<open>\<open>this.permissions && this.permissions.get(module)\<close>: the override entry of a module.\<close>

definition override_of :: "user \<Rightarrow> string \<Rightarrow> subdocument option" where
  "override_of u m = (case permissions u of None \<Rightarrow> None | Some pm \<Rightarrow> map_of pm m)"

text \<open>\<open>hasPermission\<close> reads \<open>entry[action]\<close> on the subdocument it finds, for whatever
  string the caller passes as \<open>action\<close>.\<close>

definition hasPermission ::
  "(string \<Rightarrow> js) \<Rightarrow> permission list \<Rightarrow> user \<Rightarrow> string \<Rightarrow> string \<Rightarrow> bool" where
  "hasPermission inherited ps u m action =
    (if role u = ''admin'' then True
     else case override_of u m of
       Some entry \<Rightarrow> subdocument_get inherited entry action = JBool True
     | None \<Rightarrow>
        (case shop u of
           None \<Rightarrow> False
         | Some s \<Rightarrow>
            (case findOne ps (shop u) (role u) of
               None \<Rightarrow> False
             | Some p \<Rightarrow>
                (case map_of (p_permissions p) m of
                   None \<Rightarrow> False
                 | Some entry \<Rightarrow> subdocument_get inherited entry action = JBool True))))"

text \<open>\<open>this.accessiblePages && this.accessiblePages.length > 0\<close>, and the list then used.\<close>

definition own_pages :: "user \<Rightarrow> string list" where
  "own_pages u = (case accessiblePages u of None \<Rightarrow> [] | Some xs \<Rightarrow> xs)"

definition canAccessPage :: "permission list \<Rightarrow> user \<Rightarrow> string \<Rightarrow> bool" where
  "canAccessPage ps u page =
    (if role u = ''admin'' then True
     else if own_pages u \<noteq> [] then page \<in> set (own_pages u)
     else case shop u of
       None \<Rightarrow> False
     | Some s \<Rightarrow>
        (case findOne ps (shop u) (role u) of
           None \<Rightarrow> False
         | Some p \<Rightarrow> page \<in> set (pageAccess p)))"

record resolved =
  r_permissions :: "(string \<times> obj) list"
  r_accessiblePages :: "string list"
  r_role :: string

text \<open>The admin branch of \<open>getPermissions\<close>: \<open>allPermissions[page] = {}\<close>, then every
  action set to \<open>true\<close>.\<close>

definition allPermissions :: "(string \<times> obj) list" where
  "allPermissions =
    fold (\<lambda>page acc.
            fold (\<lambda>action acc'. AList.map_entry page (assign action (JBool True)) acc')
              getAvailableActions (assign page [] acc))
      getAvailablePages []"

text \<open>\<open>rolePermission.permissions.forEach((value, key) => permissions[key] = {...value})\<close>:
  each value is a subdocument, so the copy holds its own properties, with the flags
  inside \<open>_doc\<close>.  \<open>[...rolePermission.pageAccess]\<close> copies the pages.  Both are empty when
  no active record was found.\<close>

definition role_permissions :: "permission option \<Rightarrow> (string \<times> obj) list" where
  "role_permissions rp =
    (case rp of None \<Rightarrow> []
     | Some p \<Rightarrow> fold (\<lambda>(key, val) acc. assign key (own_properties val) acc) (p_permissions p) [])"

definition role_pages :: "permission option \<Rightarrow> string list" where
  "role_pages rp = (case rp of None \<Rightarrow> [] | Some p \<Rightarrow> pageAccess p)"

text \<open>
  The body of \<open>this.permissions.forEach((value, key) => ...)\<close>.  \<open>!permissions[key]\<close> is
  false for an own entry and also for a key that names a member of \<open>Object.prototype\<close>
  (the inherited member is truthy), so an entry is created only for the other keys.
  \<open>Object.keys(value)\<close> lists the own properties of the subdocument, and each of them
  that is not \<open>undefined\<close> is written to \<open>permissions[key]\<close>: this replaces \<open>_doc\<close> as a
  whole.  When \<open>permissions[key]\<close> is an inherited member the writes land on that shared
  member and the own properties of \<open>permissions\<close> stay as they are.
\<close>

definition merge_module :: "string \<times> subdocument \<Rightarrow> (string \<times> obj) list \<Rightarrow> (string \<times> obj) list" where
  "merge_module kv acc =
    (case kv of (key, val) \<Rightarrow>
      fold (\<lambda>(action, v) acc'.
              if v \<noteq> JUndefined then AList.map_entry key (assign action v) acc' else acc')
        (own_properties val)
        (if map_of acc key = None \<and> key \<notin> set object_prototype_keys
         then assign key [] acc else acc))"

definition merge_overrides ::
  "(string \<times> subdocument) list option \<Rightarrow> (string \<times> obj) list \<Rightarrow> (string \<times> obj) list" where
  "merge_overrides ov acc = (case ov of None \<Rightarrow> acc | Some pm \<Rightarrow> fold merge_module pm acc)"

text \<open>\<open>[...new Set(xs)]\<close>: the first occurrence of every element, in order.\<close>

definition set_spread :: "string list \<Rightarrow> string list" where
  "set_spread xs = fold (\<lambda>x acc. if x \<in> set acc then acc else acc @ [x]) xs []"

definition getPermissions :: "permission list \<Rightarrow> user \<Rightarrow> resolved" where
  "getPermissions ps u =
    (if role u = ''admin'' then
       \<lparr>r_permissions = allPermissions, r_accessiblePages = getAvailablePages,
        r_role = role u\<rparr>
     else
       let rolePermission = findOne ps (shop u) (role u);
           perms = merge_overrides (permissions u) (role_permissions rolePermission);
           pages = (if own_pages u \<noteq> []
                    then set_spread (role_pages rolePermission @ own_pages u)
                    else role_pages rolePermission)
       in \<lparr>r_permissions = perms, r_accessiblePages = pages, r_role = role u\<rparr>)"

text \<open>What a caller reads off the resolver's output: \<open>permissions[module]?.[action]\<close>,
  and whether it is \<open>=== true\<close>.\<close>

definition flag_at :: "(string \<times> obj) list \<Rightarrow> string \<Rightarrow> string \<Rightarrow> js" where
  "flag_at pm m action =
    (case map_of pm m of
       None \<Rightarrow> JUndefined
     | Some ob \<Rightarrow> (case map_of ob action of None \<Rightarrow> JUndefined | Some v \<Rightarrow> v))"

definition grants :: "resolved \<Rightarrow> string \<Rightarrow> string \<Rightarrow> bool" where
  "grants r m action = (flag_at (r_permissions r) m action = JBool True)"

section \<open>permissionController.js: what the resolver's output is served as\<close>

text \<open>Truthiness, and \<open>{...v}\<close> for a value: the properties of an object, nothing for a
  primitive.\<close>

fun truthy :: "js \<Rightarrow> bool" where
  "truthy JUndefined = False"
| "truthy (JBool b) = b"
| "truthy JInternal = True"
| "truthy (JObject ob) = True"

fun spread :: "js \<Rightarrow> obj" where
  "spread (JObject ob) = ob"
| "spread v = []"

text \<open>The loop of \<open>getUserPermissions\<close> that fills \<open>cleanPermissions\<close>: take \<open>_doc\<close> when the
  module's data has one, the data itself otherwise, and delete the three internal
  keys.\<close>

definition clean_module :: "obj \<Rightarrow> obj" where
  "clean_module moduleData =
    AList.delete ''$basePath'' (AList.delete ''$isNew'' (AList.delete ''$__''
      (case map_of moduleData ''_doc'' of
         None \<Rightarrow> moduleData
       | Some d \<Rightarrow> if truthy d then spread d else moduleData)))"

definition cleanPermissions :: "(string \<times> obj) list \<Rightarrow> (string \<times> obj) list" where
  "cleanPermissions perms =
    fold (\<lambda>(m, moduleData) clean. assign m (clean_module moduleData) clean) perms []"

text \<open>The fields of the answer of \<open>getUserPermissions\<close> that come from the resolver.\<close>

definition getUserPermissions :: "permission list \<Rightarrow> user \<Rightarrow> resolved" where
  "getUserPermissions ps req_user =
    (let userPermissions = getPermissions ps req_user
     in \<lparr>r_permissions = cleanPermissions (r_permissions userPermissions),
         r_accessiblePages = r_accessiblePages userPermissions,
         r_role = r_role userPermissions\<rparr>)"

section \<open>Permission middleware\<close>

text \<open>The outcome of a middleware: hand over to the next handler, or answer 401 or 403.
  The \<open>catch\<close> branch (500) is reached only when the store fails, which is outside
  the model.\<close>

datatype gate = Next | Status401 | Status403

definition checkPermission ::
  "string \<Rightarrow> string \<Rightarrow> (string \<Rightarrow> js) \<Rightarrow> permission list \<Rightarrow> user option \<Rightarrow> gate" where
  "checkPermission m action inherited ps req_user =
    (case req_user of
       None \<Rightarrow> Status401
     | Some u \<Rightarrow>
        if role u = ''admin'' then Next
        else if \<not> hasPermission inherited ps u m action then Status403
        else Next)"

definition checkPageAccess :: "string \<Rightarrow> permission list \<Rightarrow> user option \<Rightarrow> gate" where
  "checkPageAccess page ps req_user =
    (case req_user of
       None \<Rightarrow> Status401
     | Some u \<Rightarrow>
        if role u = ''admin'' then Next
        else if \<not> canAccessPage ps u page then Status403
        else Next)"

section \<open>permissionController.js: registry writes\<close>

text \<open>The two collections the controller writes.  The compound index
  \<open>{shop: 1, role: 1}, {unique: true}\<close> is the invariant \<open>unique_index\<close>.\<close>

record db =
  Permission :: "permission list"
  User :: "user list"

definition matches :: "nat \<Rightarrow> string \<Rightarrow> permission \<Rightarrow> bool" where
  "matches sh r p = (p_shop p = sh \<and> p_role p = r)"

definition unique_index :: "permission list \<Rightarrow> bool" where
  "unique_index ps = distinct (map (\<lambda>p. (p_shop p, p_role p)) ps)"

text \<open>\<open>Permission.findOneAndUpdate({shop, role}, {permissions, pageAccess, createdBy},
  {new: true, upsert: true})\<close>: the first matching document gets the three fields
  replaced and keeps \<open>isActive\<close>; without a match a document is inserted from the filter,
  the update and the schema default \<open>isActive = true\<close>.  The update is cast by the schema, so
  every capability object of the map is stored completed to seven flags.  The result is
  the document after the write, with the collection.\<close>

fun findOneAndUpdate ::
  "nat \<Rightarrow> string \<Rightarrow> perm_table \<Rightarrow> string list \<Rightarrow> nat \<Rightarrow> permission list
    \<Rightarrow> permission \<times> permission list" where
  "findOneAndUpdate sh r pm pa cb [] =
    (let d = \<lparr>p_shop = sh, p_role = r, p_permissions = store_map pm, pageAccess = pa,
               isActive = True, createdBy = cb\<rparr>
     in (d, [d]))"
| "findOneAndUpdate sh r pm pa cb (p # ps) =
    (if matches sh r p then
       (let d = p\<lparr>p_permissions := store_map pm, pageAccess := pa, createdBy := cb\<rparr>
        in (d, d # ps))
     else
       (case findOneAndUpdate sh r pm pa cb ps of (d, ps') \<Rightarrow> (d, p # ps')))"

text \<open>\<open>User.updateMany({shop, role}, {$unset: {permissions: 1, accessiblePages: 1}})\<close>.\<close>

definition unset_overrides :: "user \<Rightarrow> user" where
  "unset_overrides u = u\<lparr>permissions := None, accessiblePages := None\<rparr>"

definition updateMany :: "nat \<Rightarrow> string \<Rightarrow> user list \<Rightarrow> user list" where
  "updateMany sh r us =
    map (\<lambda>u. if shop u = Some sh \<and> role u = r then unset_overrides u else u) us"

text \<open>\<open>new Map()\<close> filled by \<open>Object.keys(o).forEach(page => map.set(page, o[page]))\<close>.\<close>

definition permissionsMap :: "perm_table \<Rightarrow> perm_table" where
  "permissionsMap obj = fold (\<lambda>(page, c) acc. AList.update page c acc) obj []"

datatype 'a response = Status200 'a | Status403_Access_denied | Status500_Server_error

text \<open>
  The guard that opens \<open>updateRolePermissions\<close> and \<open>resetRolePermissions\<close>: an admin
  passes; anyone else must belong to the shop and be its \<open>shop_owner\<close>.  For a caller
  without a shop, \<open>userShopId\<close> is \<open>undefined\<close> and \<open>userShopId.toString()\<close> throws, which
  the handler's \<open>catch\<close> answers with 500.  \<open>None\<close> means the guard lets the request through.
\<close>

definition guard :: "user \<Rightarrow> nat \<Rightarrow> 'a response option" where
  "guard req_user shopId =
    (if role req_user \<noteq> ''admin'' then
       (case shop req_user of
          None \<Rightarrow> Some Status500_Server_error
        | Some userShopId \<Rightarrow>
           if userShopId \<noteq> shopId then Some Status403_Access_denied
           else if role req_user \<noteq> ''shop_owner'' then Some Status403_Access_denied
           else None)
     else None)"

text \<open>The request body of an update: both fields are optional.\<close>

record body =
  b_permissions :: "perm_table option"
  b_pageAccess :: "string list option"

definition updateRolePermissions ::
  "user \<Rightarrow> nat \<Rightarrow> string \<Rightarrow> body \<Rightarrow> db \<Rightarrow> permission response \<times> db" where
  "updateRolePermissions req_user shopId r req_body d =
    (case guard req_user shopId of
       Some denied \<Rightarrow> (denied, d)
     | None \<Rightarrow>
        (case findOneAndUpdate shopId r
                (case b_permissions req_body of None \<Rightarrow> [] | Some obj \<Rightarrow> permissionsMap obj)
                (case b_pageAccess req_body of None \<Rightarrow> [] | Some xs \<Rightarrow> xs)
                (uid req_user) (Permission d) of
           (updatedPermission, ps') \<Rightarrow>
             (Status200 updatedPermission,
              \<lparr>Permission = ps', User = updateMany shopId r (User d)\<rparr>)))"

definition resetRolePermissions ::
  "user \<Rightarrow> nat \<Rightarrow> string \<Rightarrow> db \<Rightarrow> permission response \<times> db" where
  "resetRolePermissions req_user shopId r d =
    (case guard req_user shopId of
       Some denied \<Rightarrow> (denied, d)
     | None \<Rightarrow>
        (let defaultPermissions = getDefaultPermissions r;
             defaultPages = object_keys defaultPermissions
         in case findOneAndUpdate shopId r
                   (permissionsMap (object_entries defaultPermissions))
                   defaultPages (uid req_user) (Permission d) of
              (updatedPermission, ps') \<Rightarrow>
                (Status200 updatedPermission,
                 \<lparr>Permission = ps', User = updateMany shopId r (User d)\<rparr>)))"

section \<open>Shop.js: initializePermissions\<close>

record shop_doc =
  shop_id :: nat
  owner :: nat

definition roles :: "string list" where
  "roles = [''admin'', ''shop_owner'', ''optometrist'', ''assistant'', ''receptionist'']"

text \<open>The body of \<open>for (const role of roles)\<close>; the update also names \<open>shop\<close> and
  \<open>role\<close>, with the values of the filter.  The method's result is the collection it
  leaves behind.\<close>

definition initialize_role :: "shop_doc \<Rightarrow> string \<Rightarrow> permission list \<Rightarrow> permission list" where
  "initialize_role sh r ps =
    (let defaultPermissions = getDefaultPermissions r;
         defaultPages = object_keys defaultPermissions
     in snd (findOneAndUpdate (shop_id sh) r
               (permissionsMap (object_entries defaultPermissions))
               defaultPages (owner sh) ps))"

definition initializePermissions :: "shop_doc \<Rightarrow> permission list \<Rightarrow> permission list" where
  "initializePermissions sh ps = fold (initialize_role sh) roles ps"

section \<open>Auxiliary notions and sample data\<close>

text \<open>An account without overrides: the fields are unset, or hold the schema defaults
  (an empty map, an empty list).\<close>

definition no_overrides :: "user \<Rightarrow> bool" where
  "no_overrides u =
    ((permissions u = None \<or> permissions u = Some []) \<and>
     (accessiblePages u = None \<or> accessiblePages u = Some []))"

text \<open>The relation between the accounts before and after a registry write for
  \<open>(sh, r)\<close>: an account of that shop and role has lost both override fields and nothing
  else, any other account is as it was.\<close>

definition cleared_for :: "nat \<Rightarrow> string \<Rightarrow> user \<Rightarrow> user \<Rightarrow> bool" where
  "cleared_for sh r u u' =
    (if shop u = Some sh \<and> role u = r
     then permissions u' = None \<and> accessiblePages u' = None \<and>
          uid u' = uid u \<and> role u' = role u \<and> shop u' = shop u
     else u' = u)"

text \<open>The flags a record stores, module by module, and a table entry written as plain
  objects: the two sides of "the stored permissions map equals the table entry".\<close>

definition stored_flags :: "permission \<Rightarrow> (string \<times> obj) list" where
  "stored_flags p = map (\<lambda>(m, s). (m, doc s)) (p_permissions p)"

text \<open>The flag a record stores for a module and a path.\<close>

definition stored_flag :: "permission \<Rightarrow> string \<Rightarrow> string \<Rightarrow> js" where
  "stored_flag p m a =
    (case map_of (p_permissions p) m of
       None \<Rightarrow> JUndefined
     | Some s \<Rightarrow> (case map_of (doc s) a of None \<Rightarrow> JUndefined | Some v \<Rightarrow> v))"

definition plain_table :: "perm_table \<Rightarrow> (string \<times> obj) list" where
  "plain_table t = map (\<lambda>(m, c). (m, map (\<lambda>(a, b). (a, JBool b)) c)) t"

text \<open>Sample data: the record of the optometrist role in shop 1, written from
  \<open>{customers: {view: true, create: false}}\<close>; an optometrist of that shop with the
  override \<open>{customers: {create: true}}\<close> and one page of their own; an admin with an
  override; a receptionist of shop 2; the owner of shop 1; an update body; shop 1
  itself; the optometrist record after a reset; and a reading of the inherited members
  in which \<open>$isSubdocument\<close> and \<open>$isSingleNested\<close> are \<open>true\<close>.\<close>

definition sample_record :: permission where
  "sample_record =
    \<lparr>p_shop = 1, p_role = ''optometrist'',
     p_permissions = store_map [(''customers'', [(''view'', True), (''create'', False)])],
     pageAccess = [''dashboard'', ''customers''], isActive = True, createdBy = 5\<rparr>"

definition sample_account :: user where
  "sample_account =
    \<lparr>uid = 7, role = ''optometrist'', shop = Some 1,
     permissions = Some [(''customers'', Subdocument [(''create'', JBool True)])],
     accessiblePages = Some [''reports'']\<rparr>"

definition sample_admin :: user where
  "sample_admin =
    \<lparr>uid = 1, role = ''admin'', shop = None,
     permissions = Some [(''customers'', Subdocument [(''view'', JBool False)])],
     accessiblePages = Some [''reports'']\<rparr>"

definition sample_receptionist :: user where
  "sample_receptionist =
    \<lparr>uid = 8, role = ''receptionist'', shop = Some 2,
     permissions = Some [(''customers'', Subdocument [(''delete'', JBool True)])],
     accessiblePages = Some [''billing'']\<rparr>"

definition sample_owner :: user where
  "sample_owner =
    \<lparr>uid = 5, role = ''shop_owner'', shop = Some 1, permissions = None,
     accessiblePages = None\<rparr>"

definition sample_body :: body where
  "sample_body =
    \<lparr>b_permissions = Some [(''customers'', [(''delete'', True)])], b_pageAccess = None\<rparr>"

definition sample_shop :: shop_doc where
  "sample_shop = \<lparr>shop_id = 1, owner = 5\<rparr>"

definition sample_db :: db where
  "sample_db =
    \<lparr>Permission = [sample_record],
     User = [sample_owner, sample_account, sample_receptionist]\<rparr>"

definition sample_reset :: permission where
  "sample_reset =
    sample_record\<lparr>p_permissions := store_map optometrist_defaults,
      pageAccess := map fst optometrist_defaults\<rparr>"

definition sample_inherited :: "string \<Rightarrow> js" where
  "sample_inherited name =
    (if name = ''$isSubdocument'' \<or> name = ''$isSingleNested'' then JBool True
     else JUndefined)"

section \<open>Objects, subdocuments and maps: properties of the building blocks\<close>




lemma findOne_no_shop: "findOne ps None r = None"
  by (simp add: findOne_def find_None_iff)

lemma update_fresh: "k \<notin> fst ` set al \<Longrightarrow> AList.update k v al = al @ [(k, v)]"
  by (induction al) auto

lemma permissionsMap_append:
  "distinct (map fst (acc @ t)) \<Longrightarrow>
   fold (\<lambda>(k, c) acc. AList.update k c acc) t acc = acc @ t"
proof (induction t arbitrary: acc)
  case Nil show ?case by simp
next
  case (Cons kv t)
  obtain k v where kv: "kv = (k, v)" by (cases kv)
  from Cons.prems have fresh: "k \<notin> fst ` set acc" by (auto simp: kv)
  from Cons.prems have "distinct (map fst ((acc @ [(k, v)]) @ t))" by (auto simp: kv)
  from Cons.IH [OF this] show ?case by (simp add: kv update_fresh [OF fresh])
qed

lemma permissionsMap_distinct: "distinct (map fst t) \<Longrightarrow> permissionsMap t = t"
  using permissionsMap_append [of "[]" t] by (simp add: permissionsMap_def)

lemma set_spread_aux:
  "set (fold (\<lambda>x acc. if x \<in> set acc then acc else acc @ [x]) xs acc) = set acc \<union> set xs
   \<and> (distinct acc \<longrightarrow> distinct (fold (\<lambda>x acc. if x \<in> set acc then acc else acc @ [x]) xs acc))"
  by (induction xs arbitrary: acc) auto

lemma set_set_spread: "set (set_spread xs) = set xs"
  using set_spread_aux [of xs "[]"] by (simp add: set_spread_def)

lemma distinct_set_spread: "distinct (set_spread xs)"
  using set_spread_aux [of xs "[]"] by (simp add: set_spread_def)

lemma cast_capabilities_flag:
  "a \<in> set capability_paths \<Longrightarrow>
   map_of (doc (cast_capabilities c)) a = Some (JBool (map_of c a = Some True))"
  by (cases "map_of c a") (simp_all add: cast_capabilities_def map_of_map_restrict)

lemma stored_flag_store_map:
  "p_permissions p = store_map t \<Longrightarrow> map_of t m = Some c \<Longrightarrow> a \<in> set capability_paths \<Longrightarrow>
   stored_flag p m a = JBool (map_of c a = Some True)"
  by (simp add: stored_flag_def store_map_def map_of_map cast_capabilities_flag)

section \<open>The permission check\<close>




text \<open>For a name that is neither an own property nor a schema path, the inherited
  member decides: where Mongoose sets it to \<open>true\<close> (as for \<open>$isSubdocument\<close>), an
  account with an override entry for the module is allowed.\<close>

lemma hasPermission_other_name:
  assumes "role u \<noteq> ''admin''" and "override_of u m = Some entry"
    and "map_of (own_properties entry) name = None" and "name \<notin> set capability_paths"
  shows "hasPermission inh ps u m name \<longleftrightarrow> inh name = JBool True"
  using assms by (simp add: hasPermission_def subdocument_get_def)

lemma hasPermission_isSubdocument_sample:
  "hasPermission sample_inherited [sample_record] sample_account ''customers'' ''$isSubdocument''"
  by code_simp

text \<open>
  C2 (as amended).  For every account that is not an admin, \<open>canAccessPage\<close> allows
  exactly when the page is in the resolver's merged page list and, in case the account
  has pages of its own, the page is one of them.  With pages of its own the account is
  checked against these alone; the role record's pages count only when it has none.
\<close>

theorem canAccessPage_iff_resolved:
  assumes "role u \<noteq> ''admin''"
  shows "canAccessPage ps u page \<longleftrightarrow>
     page \<in> set (r_accessiblePages (getPermissions ps u)) \<and>
     (own_pages u = [] \<or> page \<in> set (own_pages u))"
proof (cases "own_pages u = []")
  case True
  with assms show ?thesis
    by (cases "shop u")
       (auto simp: canAccessPage_def getPermissions_def Let_def role_pages_def findOne_no_shop
             split: option.splits)
next
  case False
  with assms show ?thesis
    by (auto simp: canAccessPage_def getPermissions_def Let_def set_set_spread)
qed

theorem canAccessPage_iff_resolved_witness:
  "role sample_account \<noteq> ''admin'' \<and>
   canAccessPage [sample_record] sample_account ''reports'' \<and>
   ''reports'' \<in> set (r_accessiblePages (getPermissions [sample_record] sample_account))"
proof -
  have h1: "role sample_account \<noteq> ''admin''" by code_simp
  have h2: "canAccessPage [sample_record] sample_account ''reports''" by code_simp
  from canAccessPage_iff_resolved [OF h1, of "[sample_record]" "''reports''"] h1 h2
  show ?thesis by simp
qed

theorem canAccessPage_counterexample:
  "role sample_account \<noteq> ''admin'' \<and>
   \<not> (canAccessPage [sample_record] sample_account ''dashboard'' \<longleftrightarrow>
      ''dashboard'' \<in> set (r_accessiblePages (getPermissions [sample_record] sample_account)))"
  by code_simp

section \<open>The resolver\<close>

lemma allPermissions_eq:
  "allPermissions =
     map (\<lambda>page. (page, map (\<lambda>action. (action, JBool True)) getAvailableActions))
       getAvailablePages"
  by code_simp

text \<open>
  C3.  For an account whose role is admin, whatever the registry and the account's
  overrides hold: \<open>hasPermission\<close> allows every module and action, \<open>canAccessPage\<close> allows
  every page, both middlewares pass the request on, and \<open>getPermissions\<close> returns every
  available page as a module with every available action \<open>true\<close>, together with the full
  list of available pages.
\<close>

theorem admin_allowed_everything:
  assumes "role u = ''admin''"
  shows "hasPermission inh ps u m a \<and> canAccessPage ps u page \<and>
     checkPermission m a inh ps (Some u) = Next \<and> checkPageAccess page ps (Some u) = Next \<and>
     getPermissions ps u =
       \<lparr>r_permissions =
          map (\<lambda>page. (page, map (\<lambda>action. (action, JBool True)) getAvailableActions))
            getAvailablePages,
        r_accessiblePages = getAvailablePages, r_role = ''admin''\<rparr> \<and>
     (m \<in> set getAvailablePages \<and> a \<in> set getAvailableActions \<longrightarrow>
        grants (getPermissions ps u) m a)"
proof -
  have g: "grants (getPermissions ps u) m a"
    if "m \<in> set getAvailablePages" and "a \<in> set getAvailableActions"
  proof -
    let ?caps = "map (\<lambda>action. (action, JBool True)) getAvailableActions"
    have "map_of (map (\<lambda>page. (page, ?caps)) getAvailablePages) m = Some ?caps"
      using that(1) by (simp add: map_of_map_restrict)
    moreover have "map_of ?caps a = Some (JBool True)"
      using that(2) by (simp add: map_of_map_restrict)
    ultimately show ?thesis
      using assms
      by (simp add: grants_def getPermissions_def allPermissions_eq flag_at_def)
  qed
  from assms g show ?thesis
    by (simp add: hasPermission_def canAccessPage_def checkPermission_def checkPageAccess_def
          getPermissions_def allPermissions_eq)
qed

theorem admin_allowed_everything_witness:
  "role sample_admin = ''admin'' \<and>
   hasPermission sample_inherited [] sample_admin ''customers'' ''view'' \<and>
   canAccessPage [] sample_admin ''help'' \<and>
   grants (getPermissions [] sample_admin) ''customers'' ''view''"
proof -
  have h: "role sample_admin = ''admin''" by code_simp
  have m: "''customers'' \<in> set getAvailablePages" by code_simp
  have a: "''view'' \<in> set getAvailableActions" by code_simp
  from admin_allowed_everything [OF h, of sample_inherited "[]" "''customers''" "''view''" "''help''"] h m a
  show ?thesis by blast
qed

text \<open>
  C4.  An account that is not an admin, has no active record for its shop and role and
  has no overrides resolves to an empty permissions object and an empty page list; every
  \<open>hasPermission\<close> and \<open>canAccessPage\<close> call answers \<open>false\<close>, and the middlewares answer 403.
  Each function returns a value on this path: none of them throws.
\<close>

theorem unconfigured_account_denied:
  assumes "role u \<noteq> ''admin''" and "findOne ps (shop u) (role u) = None" and "no_overrides u"
  shows "r_permissions (getPermissions ps u) = [] \<and>
     r_accessiblePages (getPermissions ps u) = [] \<and>
     \<not> hasPermission inh ps u m a \<and> \<not> canAccessPage ps u page \<and>
     checkPermission m a inh ps (Some u) = Status403 \<and>
     checkPageAccess page ps (Some u) = Status403"
proof -
  from assms(3) have ov: "override_of u m = None" and pg: "own_pages u = []"
    and mo: "merge_overrides (permissions u) [] = []"
    by (auto simp: no_overrides_def override_of_def own_pages_def merge_overrides_def)
  from assms(1,2) ov have hp: "\<not> hasPermission inh ps u m a"
    by (cases "shop u") (simp_all add: hasPermission_def)
  from assms(1,2) pg have cp: "\<not> canAccessPage ps u page"
    by (cases "shop u") (simp_all add: canAccessPage_def)
  from assms(1,2) pg mo have "r_permissions (getPermissions ps u) = []"
    and "r_accessiblePages (getPermissions ps u) = []"
    by (simp_all add: getPermissions_def Let_def role_permissions_def role_pages_def)
  with hp cp assms(1) show ?thesis
    by (simp add: checkPermission_def checkPageAccess_def)
qed

theorem unconfigured_account_denied_witness:
  "role sample_owner \<noteq> ''admin'' \<and> findOne [sample_record] (shop sample_owner) (role sample_owner) = None \<and>
   no_overrides sample_owner \<and>
   r_permissions (getPermissions [sample_record] sample_owner) = [] \<and>
   r_accessiblePages (getPermissions [sample_record] sample_owner) = [] \<and>
   \<not> hasPermission sample_inherited [sample_record] sample_owner ''customers'' ''view'' \<and>
   \<not> canAccessPage [sample_record] sample_owner ''dashboard''"
proof -
  have h1: "role sample_owner \<noteq> ''admin''" by code_simp
  have h2: "findOne [sample_record] (shop sample_owner) (role sample_owner) = None" by code_simp
  have h3: "no_overrides sample_owner" by code_simp
  from unconfigured_account_denied [OF h1 h2 h3, of sample_inherited "''customers''" "''view''"
      "''dashboard''"]
    h1 h2 h3
  show ?thesis by simp
qed

text \<open>
  C5.  On the worked example, role record \<open>{customers: {view: true, create: false}}\<close> and
  override \<open>{customers: {create: true}}\<close>, the code does not resolve to
  \<open>{customers: {view: true, create: true}}\<close>.  The values it iterates are subdocuments:
  the copy of the role entry holds \<open>$__\<close>, \<open>_doc\<close> and \<open>$isNew\<close>, the merge loop runs over
  the same three keys of the override and replaces \<open>_doc\<close> as a whole.  In the resolver's
  output \<open>customers.view\<close> and \<open>customers.create\<close> are \<open>undefined\<close>, and the permissions
  served from it are \<open>{customers: {create: true}}\<close>: \<open>view\<close> is erased.
\<close>

theorem getPermissions_worked_example:
  "r_permissions (getPermissions [sample_record] sample_account) =
     [(''customers'',
       [(''$__'', JInternal), (''_doc'', JObject [(''create'', JBool True)]),
        (''$isNew'', JBool False)])] \<and>
   flag_at (r_permissions (getPermissions [sample_record] sample_account)) ''customers'' ''view''
     = JUndefined \<and>
   flag_at (r_permissions (getPermissions [sample_record] sample_account)) ''customers'' ''create''
     = JUndefined \<and>
   r_permissions (getUserPermissions [sample_record] sample_account) =
     [(''customers'', [(''create'', JBool True)])] \<and>
   flag_at (r_permissions (getUserPermissions [sample_record] sample_account)) ''customers'' ''view''
     = JUndefined"
  by code_simp

text \<open>
  C6.  For an account that is not an admin and has pages of its own, the resolved page
  list has no duplicates and holds exactly the pages of the role's active record
  together with the account's own pages.
\<close>

theorem accessible_pages_union:
  assumes "role u \<noteq> ''admin''" and "own_pages u \<noteq> []"
  shows "distinct (r_accessiblePages (getPermissions ps u)) \<and>
     set (r_accessiblePages (getPermissions ps u)) =
       set (role_pages (findOne ps (shop u) (role u))) \<union> set (own_pages u)"
  using assms by (simp add: getPermissions_def Let_def set_set_spread distinct_set_spread)

theorem accessible_pages_union_witness:
  "role sample_account \<noteq> ''admin'' \<and> own_pages sample_account = [''reports''] \<and>
   role_pages (findOne [sample_record] (shop sample_account) (role sample_account)) =
     [''dashboard'', ''customers''] \<and>
   r_accessiblePages (getPermissions [sample_record] sample_account) =
     [''dashboard'', ''customers'', ''reports''] \<and>
   distinct (r_accessiblePages (getPermissions [sample_record] sample_account)) \<and>
   set (r_accessiblePages (getPermissions [sample_record] sample_account)) =
     {''dashboard'', ''customers'', ''reports''}"
proof -
  have h1: "role sample_account \<noteq> ''admin''" by code_simp
  have o: "own_pages sample_account = [''reports'']" by code_simp
  then have h2: "own_pages sample_account \<noteq> []" by simp
  have r: "role_pages (findOne [sample_record] (shop sample_account) (role sample_account)) =
     [''dashboard'', ''customers'']" by code_simp
  have e: "r_accessiblePages (getPermissions [sample_record] sample_account) =
     [''dashboard'', ''customers'', ''reports'']" by code_simp
  from accessible_pages_union [OF h1 h2, of "[sample_record]"] h1 o r e
  show ?thesis by simp
qed

section \<open>Registry writes\<close>

lemma findOneAndUpdate_doc:
  "fst (findOneAndUpdate sh r pm pa cb ps) = d \<Longrightarrow>
   matches sh r d \<and> p_permissions d = store_map pm \<and> pageAccess d = pa \<and> createdBy d = cb"
  by (induction ps) (auto simp: matches_def Let_def split: prod.splits if_splits)

lemma findOneAndUpdate_find:
  "find (matches sh r) (snd (findOneAndUpdate sh r pm pa cb ps)) =
     Some (fst (findOneAndUpdate sh r pm pa cb ps))"
  by (induction ps) (auto simp: matches_def Let_def split: prod.splits)

lemma findOneAndUpdate_idem:
  "findOneAndUpdate sh r pm pa cb (snd (findOneAndUpdate sh r pm pa cb ps)) =
     findOneAndUpdate sh r pm pa cb ps"
  by (induction ps) (auto simp: matches_def Let_def split: prod.splits)

lemma findOneAndUpdate_keys:
  "map (\<lambda>p. (p_shop p, p_role p)) (snd (findOneAndUpdate sh r pm pa cb ps)) =
     (if (sh, r) \<in> set (map (\<lambda>p. (p_shop p, p_role p)) ps)
      then map (\<lambda>p. (p_shop p, p_role p)) ps
      else map (\<lambda>p. (p_shop p, p_role p)) ps @ [(sh, r)])"
  by (induction ps) (auto simp: matches_def Let_def split: prod.splits)

lemma findOneAndUpdate_unique:
  "unique_index ps \<Longrightarrow> unique_index (snd (findOneAndUpdate sh r pm pa cb ps))"
  by (simp add: unique_index_def findOneAndUpdate_keys)

lemma filter_no_match:
  "(sh, r) \<notin> set (map (\<lambda>p. (p_shop p, p_role p)) ps) \<Longrightarrow> filter (matches sh r) ps = []"
  by (induction ps) (auto simp: matches_def)

lemma findOneAndUpdate_filter:
  "unique_index ps \<Longrightarrow>
   filter (matches sh r) (snd (findOneAndUpdate sh r pm pa cb ps)) =
     [fst (findOneAndUpdate sh r pm pa cb ps)]"
proof (induction ps)
  case Nil
  show ?case by (simp add: matches_def Let_def)
next
  case (Cons p ps)
  from Cons.prems have u: "unique_index ps"
    and fresh: "(p_shop p, p_role p) \<notin> set (map (\<lambda>p. (p_shop p, p_role p)) ps)"
    by (simp_all add: unique_index_def)
  show ?case
  proof (cases "matches sh r p")
    case True
    then have k: "p_shop p = sh" "p_role p = r" by (simp_all add: matches_def)
    from fresh have "filter (matches sh r) ps = []" unfolding k by (rule filter_no_match)
    moreover have "matches sh r (p\<lparr>p_permissions := store_map pm, pageAccess := pa, createdBy := cb\<rparr>)"
      using k by (simp add: matches_def)
    ultimately show ?thesis using True by (simp add: Let_def)
  next
    case False
    with Cons.IH [OF u] show ?thesis
      by (cases "findOneAndUpdate sh r pm pa cb ps") simp
  qed
qed

lemma findOneAndUpdate_other:
  "(sh', r') \<noteq> (sh, r) \<Longrightarrow>
   filter (matches sh' r') (snd (findOneAndUpdate sh r pm pa cb ps)) = filter (matches sh' r') ps"
  by (induction ps) (auto simp: matches_def Let_def split: prod.splits)

lemma updateMany_idem: "updateMany sh r (updateMany sh r us) = updateMany sh r us"
  by (induction us) (auto simp: updateMany_def unset_overrides_def)

lemma updateMany_cleared: "list_all2 (cleared_for sh r) us (updateMany sh r us)"
  by (induction us) (auto simp: updateMany_def unset_overrides_def cleared_for_def)

lemma defaults_keys_distinct: "distinct (map fst (object_entries (getDefaultPermissions r)))"
proof -
  have "distinct (map fst admin_defaults)" "distinct (map fst shop_owner_defaults)"
    "distinct (map fst optometrist_defaults)" "distinct (map fst assistant_defaults)"
    "distinct (map fst receptionist_defaults)"
    by code_simp+
  then show ?thesis
    by (auto simp: getDefaultPermissions_def defaults_def split: option.splits if_splits)
qed

lemma permissionsMap_defaults:
  "permissionsMap (object_entries (getDefaultPermissions r)) =
     object_entries (getDefaultPermissions r)"
  by (rule permissionsMap_distinct [OF defaults_keys_distinct])


text \<open>
  C7.  After an update or a reset of the record of \<open>(sh, r)\<close> that answers 200, every
  account of shop \<open>sh\<close> with role \<open>r\<close> has lost its \<open>permissions\<close> and \<open>accessiblePages\<close>
  overrides, and every account of another shop or another role is unchanged.
\<close>

theorem registry_write_clears_overrides:
  "(fst (updateRolePermissions c sh r b d) = Status200 p \<longrightarrow>
      list_all2 (cleared_for sh r) (User d) (User (snd (updateRolePermissions c sh r b d)))) \<and>
   (fst (resetRolePermissions c sh r d) = Status200 p' \<longrightarrow>
      list_all2 (cleared_for sh r) (User d) (User (snd (resetRolePermissions c sh r d))))"
  by (cases "guard c sh :: permission response option")
     (auto simp: updateRolePermissions_def resetRolePermissions_def guard_def Let_def
        updateMany_cleared split: prod.splits if_splits option.splits)

theorem registry_write_clears_overrides_witness:
  "fst (updateRolePermissions sample_owner 1 ''optometrist'' sample_body sample_db) =
     Status200 (sample_record\<lparr>p_permissions := store_map [(''customers'', [(''delete'', True)])],
                  pageAccess := []\<rparr>) \<and>
   fst (resetRolePermissions sample_owner 1 ''optometrist'' sample_db) =
     Status200 sample_reset \<and>
   User (snd (updateRolePermissions sample_owner 1 ''optometrist'' sample_body sample_db)) =
     [sample_owner, unset_overrides sample_account, sample_receptionist] \<and>
   list_all2 (cleared_for 1 ''optometrist'') (User sample_db)
     (User (snd (updateRolePermissions sample_owner 1 ''optometrist'' sample_body sample_db))) \<and>
   list_all2 (cleared_for 1 ''optometrist'') (User sample_db)
     (User (snd (resetRolePermissions sample_owner 1 ''optometrist'' sample_db)))"
proof -
  have h1: "fst (updateRolePermissions sample_owner 1 ''optometrist'' sample_body sample_db) =
     Status200 (sample_record\<lparr>p_permissions := store_map [(''customers'', [(''delete'', True)])],
                  pageAccess := []\<rparr>)" by code_simp
  have h2: "fst (resetRolePermissions sample_owner 1 ''optometrist'' sample_db) =
     Status200 sample_reset" by code_simp
  have e: "User (snd (updateRolePermissions sample_owner 1 ''optometrist'' sample_body sample_db)) =
     [sample_owner, unset_overrides sample_account, sample_receptionist]" by code_simp
  from registry_write_clears_overrides [of sample_owner 1 "''optometrist''" sample_body sample_db
      "sample_record\<lparr>p_permissions := store_map [(''customers'', [(''delete'', True)])],
                  pageAccess := []\<rparr>"
      sample_reset] h1 h2 e
  show ?thesis by blast
qed

text \<open>
  C8 (as amended).  A second reset by the same caller for the same shop and role returns
  the same answer and leaves the same store as the first.  After a reset that answers
  200, the record found for \<open>(sh, r)\<close> is the one in the answer; its \<open>pageAccess\<close> is the
  list of module keys of the role's entry in the static table, and its permissions map
  holds, for every module of that entry, all seven flags: \<open>true\<close> where the entry lists
  the flag, \<open>false\<close> (the schema default) where it does not.
\<close>

theorem reset_idempotent:
  "resetRolePermissions c sh r (snd (resetRolePermissions c sh r d)) =
     resetRolePermissions c sh r d \<and>
   (fst (resetRolePermissions c sh r d) = Status200 p \<longrightarrow>
      find (matches sh r) (Permission (snd (resetRolePermissions c sh r d))) = Some p \<and>
      p_permissions p = store_map (object_entries (getDefaultPermissions r)) \<and>
      pageAccess p = object_keys (getDefaultPermissions r) \<and>
      (map_of defaults r = Some t \<longrightarrow>
         p_permissions p = store_map t \<and> pageAccess p = map fst t \<and>
         (map_of t m = Some e \<and> a \<in> set capability_paths \<longrightarrow>
            stored_flag p m a = JBool (map_of e a = Some True))))"
proof (cases "guard c sh :: permission response option")
  case (Some denied)
  then have "denied \<noteq> Status200 p"
    by (auto simp: guard_def split: if_splits option.splits)
  with Some show ?thesis by (simp add: resetRolePermissions_def)
next
  case None
  let ?f = "findOneAndUpdate sh r (object_entries (getDefaultPermissions r))
     (object_keys (getDefaultPermissions r)) (uid c)"
  define p1 where "p1 = fst (?f (Permission d))"
  define ps1 where "ps1 = snd (?f (Permission d))"
  define d1 where "d1 = \<lparr>Permission = ps1, User = updateMany sh r (User d)\<rparr>"
  from None have e: "resetRolePermissions c sh r d' =
      (Status200 (fst (?f (Permission d'))),
       \<lparr>Permission = snd (?f (Permission d')), User = updateMany sh r (User d')\<rparr>)" for d'
    by (simp add: resetRolePermissions_def Let_def permissionsMap_defaults split: prod.splits)
  have r1: "resetRolePermissions c sh r d = (Status200 p1, d1)"
    by (simp add: e p1_def ps1_def d1_def)
  have "?f ps1 = ?f (Permission d)"
    unfolding ps1_def by (rule findOneAndUpdate_idem)
  then have r2: "resetRolePermissions c sh r d1 = (Status200 p1, d1)"
    by (simp add: e d1_def p1_def ps1_def updateMany_idem)
  have f: "find (matches sh r) (Permission d1) = Some p1"
    by (simp add: d1_def ps1_def p1_def findOneAndUpdate_find)
  from findOneAndUpdate_doc [OF refl, of sh r "object_entries (getDefaultPermissions r)"
      "object_keys (getDefaultPermissions r)" "uid c" "Permission d"]
  have c: "p_permissions p1 = store_map (object_entries (getDefaultPermissions r))"
    "pageAccess p1 = object_keys (getDefaultPermissions r)"
    by (simp_all add: p1_def)
  have t: "p_permissions p1 = store_map t \<and> pageAccess p1 = map fst t \<and>
         (map_of t m = Some e \<and> a \<in> set capability_paths \<longrightarrow>
            stored_flag p1 m a = JBool (map_of e a = Some True))"
    if "map_of defaults r = Some t"
  proof -
    from that have "object_entries (getDefaultPermissions r) = t"
      by (simp add: getDefaultPermissions_def)
    with c have "p_permissions p1 = store_map t" "pageAccess p1 = map fst t"
      by (simp_all add: object_keys_def)
    then show ?thesis by (simp add: stored_flag_store_map)
  qed
  from r1 r2 f c t show ?thesis by auto
qed

theorem reset_idempotent_witness:
  "fst (resetRolePermissions sample_owner 1 ''optometrist'' sample_db) = Status200 sample_reset \<and>
   map_of defaults ''optometrist'' = Some optometrist_defaults \<and>
   map_of optometrist_defaults ''dashboard'' = Some [(''view'', True)] \<and>
   ''delete'' \<in> set capability_paths \<and>
   resetRolePermissions sample_owner 1 ''optometrist''
     (snd (resetRolePermissions sample_owner 1 ''optometrist'' sample_db)) =
     resetRolePermissions sample_owner 1 ''optometrist'' sample_db \<and>
   find (matches 1 ''optometrist'')
     (Permission (snd (resetRolePermissions sample_owner 1 ''optometrist'' sample_db))) =
     Some sample_reset \<and>
   pageAccess sample_reset = map fst optometrist_defaults \<and>
   stored_flag sample_reset ''dashboard'' ''delete'' = JBool False"
proof -
  have h1: "fst (resetRolePermissions sample_owner 1 ''optometrist'' sample_db) =
     Status200 sample_reset" by code_simp
  have h2: "map_of defaults ''optometrist'' = Some optometrist_defaults" by code_simp
  have h3: "map_of optometrist_defaults ''dashboard'' = Some [(''view'', True)]" by code_simp
  have h4: "''delete'' \<in> set capability_paths" by code_simp
  have v: "JBool (map_of [(''view'', True)] ''delete'' = Some True) = JBool False" by simp
  from reset_idempotent [of sample_owner 1 "''optometrist''" sample_db sample_reset
      optometrist_defaults "''dashboard''" "[(''view'', True)]" "''delete''"] h1 h2 h3 h4
  have "resetRolePermissions sample_owner 1 ''optometrist''
       (snd (resetRolePermissions sample_owner 1 ''optometrist'' sample_db)) =
       resetRolePermissions sample_owner 1 ''optometrist'' sample_db"
    and "find (matches 1 ''optometrist'')
       (Permission (snd (resetRolePermissions sample_owner 1 ''optometrist'' sample_db))) =
       Some sample_reset"
    and "pageAccess sample_reset = map fst optometrist_defaults"
    and "stored_flag sample_reset ''dashboard'' ''delete'' =
       JBool (map_of [(''view'', True)] ''delete'' = Some True)"
    by blast+
  with h1 h2 h3 h4 v show ?thesis by simp
qed

theorem reset_stored_map_counterexample:
  "find (matches 1 ''optometrist'')
     (Permission (snd (resetRolePermissions sample_owner 1 ''optometrist'' sample_db))) =
     Some sample_reset \<and>
   map_of defaults ''optometrist'' = Some optometrist_defaults \<and>
   stored_flags sample_reset \<noteq> plain_table optometrist_defaults \<and>
   map_of (plain_table optometrist_defaults) ''dashboard'' = Some [(''view'', JBool True)] \<and>
   map_of (stored_flags sample_reset) ''dashboard'' =
     Some [(''view'', JBool True), (''create'', JBool False), (''edit'', JBool False),
           (''delete'', JBool False), (''export'', JBool False), (''import'', JBool False),
           (''manage'', JBool False)]"
  by code_simp

section \<open>Initialization of a shop\<close>

lemma initialize_role_unique: "unique_index ps \<Longrightarrow> unique_index (initialize_role sh r ps)"
  by (simp add: initialize_role_def Let_def findOneAndUpdate_unique)

lemma initialize_role_other:
  "r' \<noteq> r \<Longrightarrow> filter (matches s r') (initialize_role sh r ps) = filter (matches s r') ps"
  by (simp add: initialize_role_def Let_def findOneAndUpdate_other)

lemma initialize_role_self:
  assumes "unique_index ps"
  shows "\<exists>p. filter (matches (shop_id sh) r) (initialize_role sh r ps) = [p] \<and>
     p_permissions p = store_map (object_entries (getDefaultPermissions r)) \<and>
     pageAccess p = object_keys (getDefaultPermissions r)"
proof -
  let ?f = "findOneAndUpdate (shop_id sh) r (object_entries (getDefaultPermissions r))
     (object_keys (getDefaultPermissions r)) (owner sh) ps"
  from findOneAndUpdate_doc [OF refl, of "shop_id sh" r
      "object_entries (getDefaultPermissions r)" "object_keys (getDefaultPermissions r)"
      "owner sh" ps]
  have "p_permissions (fst ?f) = store_map (object_entries (getDefaultPermissions r))"
    and "pageAccess (fst ?f) = object_keys (getDefaultPermissions r)"
    by simp_all
  moreover have "filter (matches (shop_id sh) r) (initialize_role sh r ps) = [fst ?f]"
    using findOneAndUpdate_filter [OF assms]
    by (simp add: initialize_role_def Let_def permissionsMap_defaults)
  ultimately show ?thesis by blast
qed

lemma fold_initialize_unique:
  "unique_index ps \<Longrightarrow> unique_index (fold (initialize_role sh) rs ps)"
  by (induction rs arbitrary: ps) (simp_all add: initialize_role_unique)

lemma fold_initialize_other:
  "r \<notin> set rs \<Longrightarrow>
   filter (matches s r) (fold (initialize_role sh) rs ps) = filter (matches s r) ps"
  by (induction rs arbitrary: ps) (auto simp: initialize_role_other)

lemma fold_initialize_self:
  "distinct rs \<Longrightarrow> unique_index ps \<Longrightarrow> r \<in> set rs \<Longrightarrow>
   \<exists>p. filter (matches (shop_id sh) r) (fold (initialize_role sh) rs ps) = [p] \<and>
     p_permissions p = store_map (object_entries (getDefaultPermissions r)) \<and>
     pageAccess p = object_keys (getDefaultPermissions r)"
proof (induction rs arbitrary: ps)
  case Nil
  then show ?case by simp
next
  case (Cons x rs)
  show ?case
  proof (cases "r = x")
    case True
    with Cons.prems(1) have "r \<notin> set rs" by simp
    from fold_initialize_other [OF this] initialize_role_self [OF Cons.prems(2), of sh r] True
    show ?thesis by simp
  next
    case False
    with Cons.prems have "distinct rs" "unique_index (initialize_role sh x ps)" "r \<in> set rs"
      by (simp_all add: initialize_role_unique)
    from Cons.IH [OF this] show ?thesis by simp
  qed
qed

lemma roles_defaults:
  "r \<in> set roles \<Longrightarrow> map_of defaults r = Some (object_entries (getDefaultPermissions r))"
  by (auto simp: roles_def defaults_def getDefaultPermissions_def)

text \<open>
  C9 (as amended).  On a collection that respects the unique index on \<open>(shop, role)\<close>,
  \<open>initializePermissions\<close> leaves, for each of the five roles, exactly one record of the
  shop; an existing record is replaced, and the index still holds afterwards.  The
  record's \<open>pageAccess\<close> is the list of module keys of the role's entry in the static
  table, and its permissions map holds, for every module of that entry, all seven flags:
  \<open>true\<close> where the entry lists the flag, \<open>false\<close> (the schema default) where it does not.
\<close>

theorem initializePermissions_upserts:
  assumes "unique_index ps" and "r \<in> set roles"
  shows "unique_index (initializePermissions sh ps) \<and>
     (\<exists>p t. filter (matches (shop_id sh) r) (initializePermissions sh ps) = [p] \<and>
        map_of defaults r = Some t \<and>
        p_permissions p = store_map t \<and> pageAccess p = map fst t \<and>
        (map_of t m = Some e \<and> a \<in> set capability_paths \<longrightarrow>
           stored_flag p m a = JBool (map_of e a = Some True)))"
proof -
  have "distinct roles" by (simp add: roles_def)
  from fold_initialize_self [OF this assms, of sh]
  obtain p where p: "filter (matches (shop_id sh) r) (initializePermissions sh ps) = [p]"
    "p_permissions p = store_map (object_entries (getDefaultPermissions r))"
    "pageAccess p = object_keys (getDefaultPermissions r)"
    by (auto simp: initializePermissions_def)
  let ?t = "object_entries (getDefaultPermissions r)"
  from roles_defaults [OF assms(2)] have t: "map_of defaults r = Some ?t" .
  from p(2) have "map_of ?t m = Some e \<and> a \<in> set capability_paths \<longrightarrow>
           stored_flag p m a = JBool (map_of e a = Some True)"
    by (simp add: stored_flag_store_map)
  with p t have "\<exists>p t. filter (matches (shop_id sh) r) (initializePermissions sh ps) = [p] \<and>
        map_of defaults r = Some t \<and>
        p_permissions p = store_map t \<and> pageAccess p = map fst t \<and>
        (map_of t m = Some e \<and> a \<in> set capability_paths \<longrightarrow>
           stored_flag p m a = JBool (map_of e a = Some True))"
    unfolding object_keys_def by blast
  with fold_initialize_unique [OF assms(1), of sh roles]
  show ?thesis by (simp add: initializePermissions_def)
qed

theorem initializePermissions_upserts_witness:
  "unique_index [sample_record] \<and> ''optometrist'' \<in> set roles \<and>
   unique_index (initializePermissions sample_shop [sample_record]) \<and>
   filter (matches 1 ''optometrist'') (initializePermissions sample_shop [sample_record]) =
     [sample_reset] \<and>
   length (initializePermissions sample_shop [sample_record]) = 5 \<and>
   stored_flag sample_reset ''dashboard'' ''view'' = JBool True \<and>
   stored_flag sample_reset ''dashboard'' ''delete'' = JBool False"
proof -
  have h1: "unique_index [sample_record]" by code_simp
  have h2: "''optometrist'' \<in> set roles" by code_simp
  have e: "filter (matches 1 ''optometrist'') (initializePermissions sample_shop [sample_record]) =
     [sample_reset]" by code_simp
  have l: "length (initializePermissions sample_shop [sample_record]) = 5" by code_simp
  have f: "stored_flag sample_reset ''dashboard'' ''view'' = JBool True"
    "stored_flag sample_reset ''dashboard'' ''delete'' = JBool False" by code_simp+
  from initializePermissions_upserts [OF h1 h2, of sample_shop] h1 h2 e l f
  show ?thesis by blast
qed

theorem initializePermissions_stored_map_counterexample:
  "filter (matches 1 ''optometrist'') (initializePermissions sample_shop [sample_record]) =
     [sample_reset] \<and>
   map_of defaults ''optometrist'' = Some optometrist_defaults \<and>
   stored_flags sample_reset \<noteq> plain_table optometrist_defaults \<and>
   map_of (plain_table optometrist_defaults) ''customers'' =
     Some [(''view'', JBool True), (''create'', JBool True), (''edit'', JBool True),
           (''export'', JBool True)] \<and>
   map_of (stored_flags sample_reset) ''customers'' =
     Some [(''view'', JBool True), (''create'', JBool True), (''edit'', JBool True),
           (''delete'', JBool False), (''export'', JBool True), (''import'', JBool False),
           (''manage'', JBool False)]"
  by code_simp

section \<open>Unknown roles\<close>

text \<open>A role string that is neither one of the five roles nor the name of a member of
  \<open>Object.prototype\<close> gets the assistant table.\<close>

lemma getDefaultPermissions_fallback:
  "r \<notin> set roles \<Longrightarrow> r \<notin> set object_prototype_keys \<Longrightarrow>
   getDefaultPermissions r = Table assistant_defaults"
  by (auto simp: getDefaultPermissions_def roles_def defaults_def split: option.splits)

text \<open>
  C10.  The claim that every role string outside the five roles gets the assistant
  table fails for \<open>constructor\<close>: \<open>defaults["constructor"]\<close> is the inherited \<open>Object\<close>
  function, which is truthy, so the fallback to \<open>defaults.assistant\<close> is not taken; the
  function returned has no enumerable keys, and a reset for that role stores a record
  with empty permissions and an empty \<open>pageAccess\<close>.
\<close>

theorem getDefaultPermissions_inherited_member:
  "''constructor'' \<notin> set roles \<and>
   getDefaultPermissions ''constructor'' = Inherited ''constructor'' \<and>
   getDefaultPermissions ''constructor'' \<noteq> Table assistant_defaults \<and>
   resetRolePermissions sample_admin 1 ''constructor'' \<lparr>Permission = [], User = []\<rparr> =
     (Status200 \<lparr>p_shop = 1, p_role = ''constructor'', p_permissions = [], pageAccess = [],
                  isActive = True, createdBy = 1\<rparr>,
      \<lparr>Permission = [\<lparr>p_shop = 1, p_role = ''constructor'', p_permissions = [],
                       pageAccess = [], isActive = True, createdBy = 1\<rparr>],
       User = []\<rparr>)"
  by code_simp


end
